theory Spec2Isabelle
  imports Complex_Main
begin

section \<open>Flash-anzan game: the App component of src/App.tsx\<close>

text \<open>
  The program is one React component. Its state is a tuple of \<open>useState\<close> cells and one
  \<open>useRef\<close> cell; its behaviour is a set of event handlers, one effect that owns the
  flash timers, and the conditional rendering that decides which buttons exist in which
  phase. The embedding keeps these layers apart:
  \<^item> the handlers (\<open>startGame\<close>, \<open>handleNumClick\<close>, \<open>checkAnswer\<close>) are functions on the
    component state, unguarded, exactly as written;
  \<^item> the browser's timer queue and a clock in milliseconds form the environment;
  \<^item> \<open>commit\<close> is a re-render: it installs the new component state and runs the effect
    of lines 105--125 when one of its dependencies changed;
  \<^item> \<open>dispatch\<close> is the rendered interface: an event reaches its handler only when the
    element carrying the handler is rendered (and enabled) in the current phase.

  Numbers are JavaScript doubles in the source. All quantities here are integers far
  below \<open>2^53\<close>, where double arithmetic is exact, so they are modelled as \<open>int\<close>.
  A result of \<open>Math.random()\<close> is a rational \<open>r\<close> with \<open>0 \<le> r < 1\<close>, and the product
  \<open>r * maxValue\<close> is taken exactly. Audio (\<open>sounds\<close>, \<open>playTone\<close>) never touches the
  component state and is left out.
\<close>

subsection \<open>Data\<close>

text \<open>
  A JavaScript string is a sequence of UTF-16 code units. The texts that are not ASCII
  (labels, icons, messages) are kept as lists of code units; the answer being typed only
  ever holds ASCII button labels and is a HOL \<open>string\<close>.
\<close>

type_synonym utf16 = "nat list"

datatype GameState = START | READY | FLASHING | ANSWERING | RESULT

record GameConfig =
  name :: utf16
  count :: int
  interval :: int
  maxValue :: int
  color :: string
  icon :: utf16
  message :: utf16

definition DIFFICULTY_LEVELS :: "GameConfig list" where
  "DIFFICULTY_LEVELS =
    [\<lparr>name = [0x305F, 0x307E, 0x3054, 0x7D1A], count = 2, interval = 1200, maxValue = 5,
      color = ''bg-yellow-400'', icon = [0xD83E, 0xDD5A],
      message = [0x307E, 0x305A, 0x306F, 0x0020, 0x0032, 0x3064, 0x304B, 0x3089, 0xFF01]\<rparr>,
     \<lparr>name = [0x3072, 0x3088, 0x3053, 0x7D1A], count = 3, interval = 1000, maxValue = 9,
      color = ''bg-green-400'', icon = [0xD83D, 0xDC24],
      message = [0x0033, 0x3064, 0x306B, 0x0020, 0x3061, 0x3087, 0x3046, 0x305B, 0x3093, 0xFF01]\<rparr>,
     \<lparr>name = [0x3046, 0x3055, 0x304E, 0x7D1A], count = 5, interval = 800, maxValue = 9,
      color = ''bg-pink-400'', icon = [0xD83D, 0xDC30],
      message = [0x3069, 0x3093, 0x3069, 0x3093, 0x0020, 0x3044, 0x304F, 0x3088, 0xFF01]\<rparr>,
     \<lparr>name = [0x304F, 0x307E, 0x7D1A], count = 7, interval = 600, maxValue = 9,
      color = ''bg-orange-400'', icon = [0xD83D, 0xDC3B],
      message = [0x30AD, 0x30DF, 0x306A, 0x3089, 0x0020, 0x3067, 0x304D, 0x308B, 0xFF01]\<rparr>,
     \<lparr>name = [0x3089, 0x3044, 0x304A, 0x3093, 0x7D1A], count = 10, interval = 400, maxValue = 15,
      color = ''bg-red-500'', icon = [0xD83E, 0xDD81],
      message = [0x3042, 0x3093, 0x3056, 0x3093, 0x30DE, 0x30B9, 0x30BF, 0x30FC, 0xFF01]\<rparr>]"

definition PRAISE_MESSAGES :: "utf16 list" where
  "PRAISE_MESSAGES =
    [[0x3059, 0x3054, 0x3059, 0x304E, 0x308B, 0xFF01],
     [0x3066, 0x3093, 0x3055, 0x3044, 0xFF01],
     [0x304B, 0x3093, 0x307A, 0x304D, 0xFF01],
     [0x305D, 0x306E, 0x3061, 0x3087, 0x3046, 0x3057, 0xFF01],
     [0x304D, 0x3089, 0x304D, 0x3089, 0xFF01],
     [0x304B, 0x3063, 0x3053, 0x3044, 0x3044, 0xFF01]]"

text \<open>The literal of line 142, the message of the wrong-answer branch.\<close>

definition CONSOLATION :: utf16 where
  "CONSOLATION = [0x304A, 0x3057, 0x304B, 0x3063, 0x305F, 0x306D, 0xFF01]"

text \<open>
  The component state, lines 83--92. \<open>praise\<close> is optional because an array read out of
  range yields \<open>undefined\<close> in JavaScript; \<open>flashTimerRef\<close> is \<open>number | null\<close>.
\<close>

record App =
  gameState :: GameState
  config :: GameConfig
  numbers :: "int list"
  currentIndex :: int
  userAnswer :: string
  score :: int
  correctAnswer :: int
  streak :: int
  praise :: "utf16 option"
  flashTimerRef :: "nat option"

definition initial_App :: App where
  "initial_App =
    \<lparr>gameState = START, config = DIFFICULTY_LEVELS ! 0, numbers = [], currentIndex = - 1,
     userAnswer = [], score = 0, correctAnswer = 0, streak = 0, praise = Some [],
     flashTimerRef = None\<rparr>"

subsection \<open>Built-ins used by the handlers\<close>

text \<open>
  \<open>Math.floor(Math.random() * m)\<close> for a draw \<open>r\<close> of \<open>Math.random()\<close>.
\<close>

definition random_below :: "rat \<Rightarrow> int \<Rightarrow> int" where
  "random_below r m = \<lfloor>r * of_int m\<rfloor>"

text \<open>\<open>xs[i]\<close>: \<open>undefined\<close> (here \<open>None\<close>) outside the array.\<close>

definition js_index :: "'a list \<Rightarrow> int \<Rightarrow> 'a option" where
  "js_index xs i = (if 0 \<le> i \<and> i < int (length xs) then Some (xs ! nat i) else None)"

text \<open>
  \<open>parseInt(s)\<close> with no radix: leading white space is skipped, a sign is read, a prefix
  \<open>0x\<close> selects radix 16, and the longest run of digits of the radix is the value;
  \<open>None\<close> is \<open>NaN\<close>, the result when that run is empty.
\<close>

definition is_white :: "char \<Rightarrow> bool" where
  "is_white c = (c \<in> set [CHR 0x20, CHR 0x09, CHR 0x0A, CHR 0x0B, CHR 0x0C, CHR 0x0D])"

definition digit_value :: "char \<Rightarrow> nat option" where
  "digit_value c =
    (let n = (of_char c :: nat) in
     if 48 \<le> n \<and> n \<le> 57 then Some (n - 48)
     else if 97 \<le> n \<and> n \<le> 122 then Some (n - 87)
     else if 65 \<le> n \<and> n \<le> 90 then Some (n - 55)
     else None)"

definition is_digit_of :: "nat \<Rightarrow> char \<Rightarrow> bool" where
  "is_digit_of radix c = (case digit_value c of Some d \<Rightarrow> d < radix | None \<Rightarrow> False)"

definition digits_value :: "nat \<Rightarrow> string \<Rightarrow> nat" where
  "digits_value radix ds = foldl (\<lambda>acc c. acc * radix + the (digit_value c)) 0 ds"

definition parseInt :: "string \<Rightarrow> int option" where
  "parseInt s =
    (let s1 = dropWhile is_white s;
         neg = (take 1 s1 = ''-'');
         s2 = (if take 1 s1 = ''-'' \<or> take 1 s1 = ''+'' then drop 1 s1 else s1);
         hex = (take 2 s2 = ''0x'' \<or> take 2 s2 = ''0X'');
         radix = (if hex then 16 else 10);
         s3 = (if hex then drop 2 s2 else s2);
         ds = takeWhile (is_digit_of radix) s3
     in if ds = [] then None
        else Some ((if neg then - 1 else 1) * int (digits_value radix ds)))"

subsection \<open>Handlers\<close>

text \<open>
  \<open>startGame\<close>, lines 94--103. \<open>rs i\<close> is the result of the \<open>i\<close>-th call of
  \<open>Math.random()\<close>; \<open>Array.from({length: n}, f)\<close> builds \<open>n\<close> elements in order, none
  when \<open>n\<close> is not positive.
\<close>

definition startGame :: "(nat \<Rightarrow> rat) \<Rightarrow> App \<Rightarrow> App" where
  "startGame rs a =
    (let newNumbers = map (\<lambda>i. random_below (rs i) (maxValue (config a)) + 1)
                          [0..<nat (count (config a))]
     in a\<lparr>numbers := newNumbers,
          correctAnswer := foldl (\<lambda>x y. x + y) 0 newNumbers,
          gameState := READY,
          userAnswer := []\<rparr>)"

text \<open>\<open>handleNumClick\<close>, lines 127--130.\<close>

definition handleNumClick :: "string \<Rightarrow> App \<Rightarrow> App" where
  "handleNumClick val a =
    (if val = ''C'' then a\<lparr>userAnswer := []\<rparr>
     else if length (userAnswer a) < 3 then a\<lparr>userAnswer := userAnswer a @ val\<rparr>
     else a)"

text \<open>
  \<open>checkAnswer\<close>, lines 132--145; \<open>r\<close> is the draw of \<open>Math.random()\<close> on line 138.
\<close>

definition checkAnswer :: "rat \<Rightarrow> App \<Rightarrow> App" where
  "checkAnswer r a =
    (let isCorrect = (parseInt (userAnswer a) = Some (correctAnswer a));
         a1 = (if isCorrect
               then a\<lparr>score := score a + count (config a) * 10 + streak a * 5,
                      streak := streak a + 1,
                      praise := js_index PRAISE_MESSAGES
                                  (random_below r (int (length PRAISE_MESSAGES)))\<rparr>
               else a\<lparr>streak := 0, praise := Some CONSOLATION\<rparr>)
     in a1\<lparr>gameState := RESULT\<rparr>)"

subsection \<open>The browser: timers and a clock\<close>

text \<open>
  The two callbacks the effect hands to the browser. \<open>FlashTick idx len delay\<close> is the
  closure of lines 110--122: its own counter \<open>idx\<close>, and \<open>numbers.length\<close> and
  \<open>config.interval\<close> as they were when the effect ran. \<open>ToAnswering\<close> is the closure of
  lines 117--120.
\<close>

datatype callback = FlashTick int nat int | ToAnswering

text \<open>
  A pending timer: its handle, the time in milliseconds at which it fires next, its
  period when it was made by \<open>setInterval\<close> (\<open>None\<close> for \<open>setTimeout\<close>), and its callback.
\<close>

record timer =
  handle :: nat
  due :: int
  period :: "int option"
  callback :: callback

text \<open>
  The component inside its environment. Timers fire at their due time exactly; handles
  are positive and never reused (\<open>next_handle\<close> starts at 1).
\<close>

record world =
  app :: App
  timers :: "timer list"
  clock :: int
  next_handle :: nat

definition initial_world :: world where
  "initial_world = \<lparr>app = initial_App, timers = [], clock = 0, next_handle = 1\<rparr>"

text \<open>A negative delay counts as 0.\<close>

definition setInterval :: "callback \<Rightarrow> int \<Rightarrow> world \<Rightarrow> nat \<times> world" where
  "setInterval cb d w =
    (next_handle w,
     w\<lparr>timers := timers w @ [\<lparr>handle = next_handle w, due = clock w + max 0 d,
                                period = Some (max 0 d), callback = cb\<rparr>],
       next_handle := Suc (next_handle w)\<rparr>)"

definition setTimeout :: "callback \<Rightarrow> int \<Rightarrow> world \<Rightarrow> world" where
  "setTimeout cb d w =
    w\<lparr>timers := timers w @ [\<lparr>handle = next_handle w, due = clock w + max 0 d,
                               period = None, callback = cb\<rparr>],
      next_handle := Suc (next_handle w)\<rparr>"

definition clearInterval :: "nat \<Rightarrow> world \<Rightarrow> world" where
  "clearInterval h w = w\<lparr>timers := filter (\<lambda>t. handle t \<noteq> h) (timers w)\<rparr>"

subsection \<open>The effect of lines 105--125 and re-rendering\<close>

text \<open>\<open>if (flashTimerRef.current) clearInterval(flashTimerRef.current)\<close>: lines 116 and 123.\<close>

definition clear_flash_timer :: "world \<Rightarrow> world" where
  "clear_flash_timer w =
    (case flashTimerRef (app w) of
       None \<Rightarrow> w
     | Some h \<Rightarrow> if h \<noteq> 0 then clearInterval h w else w)"

text \<open>The body of the effect when \<open>gameState === GameState.FLASHING\<close>, lines 107--122.\<close>

definition flashing_effect :: "world \<Rightarrow> world" where
  "flashing_effect w =
    (let w1 = w\<lparr>app := (app w)\<lparr>currentIndex := 0\<rparr>\<rparr>;
         (h, w2) = setInterval
                     (FlashTick 0 (length (numbers (app w))) (interval (config (app w))))
                     (interval (config (app w))) w1
     in w2\<lparr>app := (app w2)\<lparr>flashTimerRef := Some h\<rparr>\<rparr>)"

text \<open>
  A re-render with the new component state \<open>a\<close>. The effect depends on
  \<open>[gameState, numbers, config.interval]\<close>: when none of them changed nothing runs;
  otherwise the cleanup returned by the previous run is called, which exists exactly when
  that run saw FLASHING, and then the effect runs again. (React compares \<open>numbers\<close> by
  identity; a new array is only ever stored together with a change of \<open>gameState\<close>, or in
  a phase other than FLASHING where neither cleanup nor body does anything, so comparing
  by value gives the same runs.)
\<close>

definition commit :: "App \<Rightarrow> world \<Rightarrow> world" where
  "commit a w =
    (let old = app w; w1 = w\<lparr>app := a\<rparr>
     in if gameState a = gameState old \<and> numbers a = numbers old
           \<and> interval (config a) = interval (config old)
        then w1
        else (let w2 = (if gameState old = FLASHING then clear_flash_timer w1 else w1)
              in if gameState a = FLASHING then flashing_effect w2 else w2))"

subsection \<open>Timers firing\<close>

text \<open>The pending timer that fires next: the earliest due, the oldest among equals.\<close>

fun next_timer :: "timer list \<Rightarrow> timer option" where
  "next_timer [] = None"
| "next_timer (t # ts) =
    (case next_timer ts of
       None \<Rightarrow> Some t
     | Some u \<Rightarrow> if due u < due t then Some u else Some t)"

text \<open>
  Before its callback runs, a fired timeout leaves the queue and a fired interval is
  scheduled one period later.
\<close>

definition reschedule :: "timer \<Rightarrow> world \<Rightarrow> world" where
  "reschedule t w =
    (case period t of
       None \<Rightarrow> w\<lparr>timers := filter (\<lambda>u. handle u \<noteq> handle t) (timers w)\<rparr>
     | Some p \<Rightarrow> w\<lparr>timers := map (\<lambda>u. if handle u = handle t then u\<lparr>due := due t + p\<rparr> else u)
                                 (timers w)\<rparr>)"

text \<open>\<open>idx++\<close> on line 111: the counter lives in the closure of the interval's callback.\<close>

definition store_idx :: "nat \<Rightarrow> int \<Rightarrow> world \<Rightarrow> world" where
  "store_idx h idx w =
    w\<lparr>timers := map (\<lambda>u. if handle u = h
                          then (case callback u of
                                  FlashTick _ len delay \<Rightarrow> u\<lparr>callback := FlashTick idx len delay\<rparr>
                                | ToAnswering \<Rightarrow> u)
                          else u) (timers w)\<rparr>"

text \<open>The callbacks: lines 110--122 for timer \<open>h\<close>, and lines 117--120.\<close>

fun run_callback :: "nat \<Rightarrow> callback \<Rightarrow> world \<Rightarrow> world" where
  "run_callback h (FlashTick idx len delay) w =
    (let idx' = idx + 1; w1 = store_idx h idx' w
     in if idx' < int len
        then commit ((app w1)\<lparr>currentIndex := idx'\<rparr>) w1
        else setTimeout ToAnswering delay (clear_flash_timer w1))"
| "run_callback h ToAnswering w =
    commit ((app w)\<lparr>gameState := ANSWERING, currentIndex := - 1\<rparr>) w"

definition fire_next :: "world \<Rightarrow> world" where
  "fire_next w =
    (case next_timer (timers w) of
       None \<Rightarrow> w
     | Some t \<Rightarrow> run_callback (handle t) (callback t) (reschedule t (w\<lparr>clock := due t\<rparr>)))"

subsection \<open>The rendered interface\<close>

text \<open>
  The labels of the keypad, line 220: eleven strings of one character each, the digits 1
  to 9, then \<open>C\<close>, then 0.
\<close>

definition NUM_BUTTONS :: "string list" where
  "NUM_BUTTONS = map (\<lambda>c. [c]) ''123456789C0''"

text \<open>
  What can happen to the page. The first eight are clicks: a difficulty button (by its
  position in the catalogue), the play button of the start screen, GO, a keypad button
  (by its label), OK, the restart and the home button of the result screen. Clicks that
  call \<open>Math.random()\<close> carry the draws. \<open>TimerFires\<close> is the browser running the next
  pending timer; \<open>Elapse d\<close> lets \<open>d\<close> milliseconds pass in which no timer is due.
\<close>

datatype event =
    SelectLevel nat
  | Play "nat \<Rightarrow> rat"
  | Go
  | Press string
  | Ok rat
  | Again "nat \<Rightarrow> rat"
  | Home
  | TimerFires
  | Elapse int

text \<open>
  Each click reaches its handler only in the phase whose block of the JSX (lines
  156--260) renders the button; the OK button is also \<open>disabled\<close> while \<open>userAnswer\<close> is
  empty (line 223). A click on anything else changes nothing. React re-renders after
  each click, so a handler always sees the state left by the previous event.
\<close>

fun dispatch :: "event \<Rightarrow> world \<Rightarrow> world" where
  "dispatch (SelectLevel i) w =
    (if gameState (app w) = START \<and> i < length DIFFICULTY_LEVELS
     then commit ((app w)\<lparr>config := DIFFICULTY_LEVELS ! i\<rparr>) w else w)"
| "dispatch (Play rs) w =
    (if gameState (app w) = START then commit (startGame rs (app w)) w else w)"
| "dispatch Go w =
    (if gameState (app w) = READY then commit ((app w)\<lparr>gameState := FLASHING\<rparr>) w else w)"
| "dispatch (Press val) w =
    (if gameState (app w) = ANSWERING \<and> val \<in> set NUM_BUTTONS
     then commit (handleNumClick val (app w)) w else w)"
| "dispatch (Ok r) w =
    (if gameState (app w) = ANSWERING \<and> userAnswer (app w) \<noteq> []
     then commit (checkAnswer r (app w)) w else w)"
| "dispatch (Again rs) w =
    (if gameState (app w) = RESULT then commit (startGame rs (app w)) w else w)"
| "dispatch Home w =
    (if gameState (app w) = RESULT then commit ((app w)\<lparr>gameState := START\<rparr>) w else w)"
| "dispatch TimerFires w = fire_next w"
| "dispatch (Elapse d) w =
    (if 0 \<le> d \<and> list_all (\<lambda>t. clock w + d \<le> due t) (timers w)
     then w\<lparr>clock := clock w + d\<rparr> else w)"

text \<open>A draw of \<open>Math.random()\<close> lies in \<open>[0, 1)\<close>.\<close>

fun draws_ok :: "event \<Rightarrow> bool" where
  "draws_ok (Play rs) = (\<forall>i. 0 \<le> rs i \<and> rs i < 1)"
| "draws_ok (Again rs) = (\<forall>i. 0 \<le> rs i \<and> rs i < 1)"
| "draws_ok (Ok r) = (0 \<le> r \<and> r < 1)"
| "draws_ok _ = True"

text \<open>The states the page can be in: from the first render, through any events.\<close>

inductive reachable :: "world \<Rightarrow> bool" where
  reachable_initial: "reachable initial_world"
| reachable_dispatch: "reachable w \<Longrightarrow> draws_ok e \<Longrightarrow> reachable (dispatch e w)"

text \<open>A sequence of events, oldest first.\<close>

definition run :: "event list \<Rightarrow> world \<Rightarrow> world" where
  "run es w = foldl (\<lambda>v e. dispatch e v) w es"

text \<open>\<open>k\<close> timer firings in a row.\<close>

fun ticks :: "nat \<Rightarrow> world \<Rightarrow> world" where
  "ticks 0 w = w"
| "ticks (Suc k) w = dispatch TimerFires (ticks k w)"

subsection \<open>Decimal notation\<close>

text \<open>The keys a player presses to type the number \<open>n\<close>: its decimal digits.\<close>

definition digit_char :: "nat \<Rightarrow> char" where
  "digit_char d = ''0123456789'' ! d"

fun digits_of :: "nat \<Rightarrow> string" where
  "digits_of n = (if n < 10 then [digit_char n] else digits_of (n div 10) @ [digit_char (n mod 10)])"

declare digits_of.simps [simp del]

definition presses :: "string \<Rightarrow> event list" where
  "presses ds = map (\<lambda>c. Press [c]) ds"

subsection \<open>Invariants of the reachable states\<close>

text \<open>The answer being typed: at most three characters, all of them decimal digits.\<close>

definition answer_inv :: "world \<Rightarrow> bool" where
  "answer_inv w =
    (length (userAnswer (app w)) \<le> 3
     \<and> set (userAnswer (app w)) \<subseteq> set ''0123456789''
     \<and> (gameState (app w) = RESULT \<longrightarrow> userAnswer (app w) \<noteq> []))"

text \<open>
  The preset is one of the catalogue, and outside START the round was generated from it:
  \<open>count\<close> values between 1 and \<open>maxValue\<close>, and their sum.
\<close>

definition round_inv :: "world \<Rightarrow> bool" where
  "round_inv w =
    (config (app w) \<in> set DIFFICULTY_LEVELS
     \<and> (gameState (app w) \<noteq> START \<longrightarrow>
          int (length (numbers (app w))) = count (config (app w))
          \<and> (\<forall>x \<in> set (numbers (app w)). 1 \<le> x \<and> x \<le> maxValue (config (app w)))
          \<and> correctAnswer (app w) = sum_list (numbers (app w))))"

text \<open>
  The timer queue: empty outside FLASHING; in FLASHING exactly one timer, either the
  interval whose handle \<open>flashTimerRef\<close> holds or the final timeout.
\<close>

definition is_flash_interval :: "world \<Rightarrow> timer \<Rightarrow> bool" where
  "is_flash_interval w t =
    (period t \<noteq> None \<and> handle t \<noteq> 0 \<and> flashTimerRef (app w) = Some (handle t)
     \<and> (case callback t of FlashTick _ _ _ \<Rightarrow> True | ToAnswering \<Rightarrow> False))"

definition is_last_delay :: "timer \<Rightarrow> bool" where
  "is_last_delay t = (period t = None \<and> callback t = ToAnswering)"

definition timers_inv :: "world \<Rightarrow> bool" where
  "timers_inv w =
    (0 < next_handle w
     \<and> (case timers w of
          [] \<Rightarrow> gameState (app w) \<noteq> FLASHING
        | [t] \<Rightarrow> gameState (app w) = FLASHING \<and> (is_flash_interval w t \<or> is_last_delay t)
        | _ \<Rightarrow> False))"

subsection \<open>The course of a flash sequence\<close>

text \<open>
  The states a flash sequence passes through when GO is clicked in \<open>w\<close>: the index \<open>k\<close>
  on display with the interval pending, the last delay after the interval was cancelled,
  and the answering screen.
\<close>

definition flashing_at :: "world \<Rightarrow> nat \<Rightarrow> world" where
  "flashing_at w k =
    w\<lparr>app := (app w)\<lparr>gameState := FLASHING, currentIndex := int k,
                       flashTimerRef := Some (next_handle w)\<rparr>,
      timers := [\<lparr>handle = next_handle w,
                  due = clock w + (int k + 1) * interval (config (app w)),
                  period = Some (interval (config (app w))),
                  callback = FlashTick (int k) (length (numbers (app w)))
                               (interval (config (app w)))\<rparr>],
      clock := clock w + int k * interval (config (app w)),
      next_handle := Suc (next_handle w)\<rparr>"

definition last_delay_at :: "world \<Rightarrow> world" where
  "last_delay_at w =
    w\<lparr>app := (app w)\<lparr>gameState := FLASHING, currentIndex := int (length (numbers (app w))) - 1,
                       flashTimerRef := Some (next_handle w)\<rparr>,
      timers := [\<lparr>handle = Suc (next_handle w),
                  due = clock w + (int (length (numbers (app w))) + 1) * interval (config (app w)),
                  period = None, callback = ToAnswering\<rparr>],
      clock := clock w + int (length (numbers (app w))) * interval (config (app w)),
      next_handle := Suc (Suc (next_handle w))\<rparr>"

definition answering_after :: "world \<Rightarrow> world" where
  "answering_after w =
    w\<lparr>app := (app w)\<lparr>gameState := ANSWERING, currentIndex := - 1,
                       flashTimerRef := Some (next_handle w)\<rparr>,
      timers := [],
      clock := clock w + (int (length (numbers (app w))) + 1) * interval (config (app w)),
      next_handle := Suc (Suc (next_handle w))\<rparr>"

subsection \<open>A sample session\<close>

text \<open>
  The first preset (two values up to 5) with draws that give the round \<open>[3, 4]\<close>: play,
  GO, the flashes, the last delay, then the wrong answer 6.
\<close>

definition rs34 :: "nat \<Rightarrow> rat" where
  "rs34 i = (if i = 0 then 2 / 5 else 3 / 5)"

definition demo_ready :: world where
  "demo_ready = dispatch (Play rs34) initial_world"

definition demo_flashing :: world where
  "demo_flashing = dispatch Go demo_ready"

definition demo_last_delay :: world where
  "demo_last_delay = ticks 2 demo_flashing"

definition demo_answering :: world where
  "demo_answering = dispatch TimerFires demo_last_delay"

definition demo_typed :: world where
  "demo_typed = dispatch (Press ''6'') demo_answering"

definition demo_wrong :: world where
  "demo_wrong = dispatch (Ok (1 / 2)) demo_typed"

text \<open>
  The answering screen of a round \<open>[1, 2, 3]\<close> of the second preset (three values), with
  two correct answers in a row behind the player and \<open>ua\<close> typed.
\<close>

definition demo_streak :: "string \<Rightarrow> world" where
  "demo_streak ua =
    \<lparr>app = initial_App\<lparr>gameState := ANSWERING, config := DIFFICULTY_LEVELS ! 1,
                       numbers := [1, 2, 3], correctAnswer := 6, userAnswer := ua,
                       score := 50, streak := 2\<rparr>,
     timers = [], clock = 0, next_handle = 1\<rparr>"


text \<open>Presets outside the catalogue, with no values to flash and with no range to draw from.\<close>

definition no_values_config :: GameConfig where
  "no_values_config = (DIFFICULTY_LEVELS ! 0)\<lparr>count := 0\<rparr>"

definition no_range_config :: GameConfig where
  "no_range_config = (DIFFICULTY_LEVELS ! 0)\<lparr>maxValue := 0\<rparr>"

section \<open>Properties\<close>

subsection \<open>Round generation\<close>

lemma random_below_range:
  assumes "0 \<le> r" "r < 1" "1 \<le> m"
  shows "0 \<le> random_below r m \<and> random_below r m < m"
proof -
  have pos: "(0::rat) < of_int m" using assms(3) by simp
  have "0 \<le> r * of_int m" using assms(1) pos by simp
  then have lo: "0 \<le> random_below r m" by (simp add: random_below_def)
  have "r * of_int m < 1 * of_int m" using assms(2) pos by (rule mult_strict_right_mono)
  then have "r * of_int m < of_int m" by simp
  then have "random_below r m < m" by (simp add: random_below_def floor_less_iff)
  with lo show ?thesis by simp
qed

lemma foldl_plus_sum_list: "foldl (\<lambda>x y. x + y) (acc::int) xs = acc + sum_list xs"
  by (induction xs arbitrary: acc) simp_all

lemma numbers_startGame:
  "numbers (startGame rs a) =
     map (\<lambda>i. random_below (rs i) (maxValue (config a)) + 1) [0..<nat (count (config a))]"
  by (simp add: startGame_def Let_def)

lemma correctAnswer_startGame:
  "correctAnswer (startGame rs a) = sum_list (numbers (startGame rs a))"
  by (simp add: startGame_def Let_def foldl_plus_sum_list)

lemma startGame_fields:
  "gameState (startGame rs a) = READY" "userAnswer (startGame rs a) = []"
  "config (startGame rs a) = config a" "score (startGame rs a) = score a"
  "streak (startGame rs a) = streak a" "flashTimerRef (startGame rs a) = flashTimerRef a"
  by (simp_all add: startGame_def Let_def)

lemma rs34_unit: "\<forall>i. 0 \<le> rs34 i \<and> rs34 i < 1"
  by (simp add: rs34_def)

subsection \<open>Re-rendering\<close>

lemma commit_same:
  "gameState a = gameState (app w) \<Longrightarrow> numbers a = numbers (app w)
   \<Longrightarrow> interval (config a) = interval (config (app w)) \<Longrightarrow> commit a w = w\<lparr>app := a\<rparr>"
  by (simp add: commit_def Let_def)

lemma commit_plain:
  "gameState (app w) \<noteq> FLASHING \<Longrightarrow> gameState a \<noteq> FLASHING \<Longrightarrow> commit a w = w\<lparr>app := a\<rparr>"
  by (simp add: commit_def Let_def)

lemma dispatch_Ok:
  "gameState (app w) = ANSWERING \<Longrightarrow> userAnswer (app w) \<noteq> []
   \<Longrightarrow> dispatch (Ok r) w = w\<lparr>app := checkAnswer r (app w)\<rparr>"
  by (simp add: commit_plain checkAnswer_def Let_def)

lemma dispatch_Press:
  "gameState (app w) = ANSWERING \<Longrightarrow> val \<in> set NUM_BUTTONS
   \<Longrightarrow> dispatch (Press val) w = w\<lparr>app := handleNumClick val (app w)\<rparr>"
  by (simp add: commit_same handleNumClick_def)


lemma dispatch_start:
  "gameState (app w) = START \<Longrightarrow> dispatch (Play rs) w = w\<lparr>app := startGame rs (app w)\<rparr>"
  "gameState (app w) = RESULT \<Longrightarrow> dispatch (Again rs) w = w\<lparr>app := startGame rs (app w)\<rparr>"
  by (simp_all add: commit_plain startGame_fields)

lemma dispatch_SelectLevel:
  "gameState (app w) = START \<Longrightarrow> i < length DIFFICULTY_LEVELS
   \<Longrightarrow> dispatch (SelectLevel i) w = w\<lparr>app := (app w)\<lparr>config := DIFFICULTY_LEVELS ! i\<rparr>\<rparr>"
  by (simp add: commit_plain)

subsection \<open>The sample session, step by step\<close>

lemma demo_ready_eq:
  "demo_ready =
    \<lparr>app = initial_App\<lparr>numbers := [3, 4], correctAnswer := 7, gameState := READY,
                       userAnswer := []\<rparr>,
     timers = [], clock = 0, next_handle = 1\<rparr>"
  by (simp add: demo_ready_def initial_world_def commit_def Let_def startGame_def initial_App_def
      DIFFICULTY_LEVELS_def random_below_def rs34_def upt_rec)

lemma demo_flashing_eq:
  "demo_flashing =
    \<lparr>app = initial_App\<lparr>numbers := [3, 4], correctAnswer := 7, gameState := FLASHING,
                       userAnswer := [], currentIndex := 0, flashTimerRef := Some 1\<rparr>,
     timers = [\<lparr>handle = 1, due = 1200, period = Some 1200, callback = FlashTick 0 2 1200\<rparr>],
     clock = 0, next_handle = 2\<rparr>"
  by (simp add: demo_flashing_def demo_ready_eq commit_def Let_def flashing_effect_def
      setInterval_def initial_App_def DIFFICULTY_LEVELS_def)

lemma demo_last_delay_eq:
  "demo_last_delay =
    \<lparr>app = initial_App\<lparr>numbers := [3, 4], correctAnswer := 7, gameState := FLASHING,
                       userAnswer := [], currentIndex := 1, flashTimerRef := Some 1\<rparr>,
     timers = [\<lparr>handle = 2, due = 3600, period = None, callback = ToAnswering\<rparr>],
     clock = 2400, next_handle = 3\<rparr>"
  by (simp add: demo_last_delay_def demo_flashing_eq numeral_2_eq_2 fire_next_def reschedule_def
      store_idx_def commit_def Let_def clear_flash_timer_def clearInterval_def setTimeout_def
      initial_App_def DIFFICULTY_LEVELS_def)

lemma demo_answering_eq:
  "demo_answering =
    \<lparr>app = initial_App\<lparr>numbers := [3, 4], correctAnswer := 7, gameState := ANSWERING,
                       userAnswer := [], currentIndex := - 1, flashTimerRef := Some 1\<rparr>,
     timers = [], clock = 3600, next_handle = 3\<rparr>"
  by (simp add: demo_answering_def demo_last_delay_eq fire_next_def reschedule_def
      commit_def Let_def clear_flash_timer_def clearInterval_def
      initial_App_def DIFFICULTY_LEVELS_def)

lemma demo_typed_eq:
  "demo_typed =
    \<lparr>app = initial_App\<lparr>numbers := [3, 4], correctAnswer := 7, gameState := ANSWERING,
                       userAnswer := ''6'', currentIndex := - 1, flashTimerRef := Some 1\<rparr>,
     timers = [], clock = 3600, next_handle = 3\<rparr>"
  by (simp add: demo_typed_def demo_answering_eq NUM_BUTTONS_def handleNumClick_def
      commit_def Let_def initial_App_def)

lemma demo_wrong_eq:
  "demo_wrong =
    \<lparr>app = initial_App\<lparr>numbers := [3, 4], correctAnswer := 7, gameState := RESULT,
                       userAnswer := ''6'', currentIndex := - 1, flashTimerRef := Some 1,
                       streak := 0, praise := Some CONSOLATION\<rparr>,
     timers = [], clock = 3600, next_handle = 3\<rparr>"
  by (simp add: demo_wrong_def demo_typed_eq checkAnswer_def commit_def Let_def parseInt_def
      is_white_def is_digit_of_def digit_value_def digits_value_def initial_App_def)

lemma reachable_demo_ready: "reachable demo_ready"
  unfolding demo_ready_def
  by (rule reachable_dispatch [OF reachable_initial]) (simp add: rs34_unit)

lemma reachable_demo_flashing: "reachable demo_flashing"
  unfolding demo_flashing_def
  by (rule reachable_dispatch [OF reachable_demo_ready]) simp

lemma reachable_ticks: "reachable w \<Longrightarrow> reachable (ticks k w)"
  by (induction k) (simp_all add: reachable_dispatch del: dispatch.simps)

lemma reachable_run: "reachable w \<Longrightarrow> list_all draws_ok es \<Longrightarrow> reachable (run es w)"
  unfolding run_def
  by (induction es arbitrary: w) (simp_all add: reachable_dispatch del: dispatch.simps)

lemma reachable_demo_last_delay: "reachable demo_last_delay"
  unfolding demo_last_delay_def by (rule reachable_ticks [OF reachable_demo_flashing])

lemma reachable_demo_answering: "reachable demo_answering"
  unfolding demo_answering_def
  by (rule reachable_dispatch [OF reachable_demo_last_delay]) simp

lemma reachable_demo_typed: "reachable demo_typed"
  unfolding demo_typed_def
  by (rule reachable_dispatch [OF reachable_demo_answering]) simp

lemma reachable_demo_wrong: "reachable demo_wrong"
  unfolding demo_wrong_def
  by (rule reachable_dispatch [OF reachable_demo_typed]) simp

subsection \<open>What the environment operations leave alone\<close>

lemma app_env [simp]:
  "app (clearInterval h w) = app w"
  "app (clear_flash_timer w) = app w"
  "app (setTimeout cb d w) = app w"
  "app (reschedule t w) = app w"
  "app (store_idx h idx w) = app w"
  by (simp_all add: clearInterval_def clear_flash_timer_def setTimeout_def reschedule_def
      store_idx_def split: option.splits)

lemma next_handle_env [simp]:
  "next_handle (clearInterval h w) = next_handle w"
  "next_handle (clear_flash_timer w) = next_handle w"
  "next_handle (setTimeout cb d w) = Suc (next_handle w)"
  "next_handle (reschedule t w) = next_handle w"
  "next_handle (store_idx h idx w) = next_handle w"
  by (simp_all add: clearInterval_def clear_flash_timer_def setTimeout_def reschedule_def
      store_idx_def split: option.splits)

lemma timers_clear_flash_timer_Nil [simp]:
  "timers w = [] \<Longrightarrow> timers (clear_flash_timer w) = []"
  by (simp add: clear_flash_timer_def clearInterval_def split: option.splits)

lemma app_commit:
  "app (commit a w) =
    (if gameState a = FLASHING
        \<and> \<not> (gameState a = gameState (app w) \<and> numbers a = numbers (app w)
               \<and> interval (config a) = interval (config (app w)))
     then a\<lparr>currentIndex := 0, flashTimerRef := Some (next_handle w)\<rparr>
     else a)"
  by (simp add: commit_def Let_def flashing_effect_def setInterval_def)

lemma commit_keeps [simp]:
  "gameState (app (commit a w)) = gameState a"
  "config (app (commit a w)) = config a"
  "numbers (app (commit a w)) = numbers a"
  "userAnswer (app (commit a w)) = userAnswer a"
  "score (app (commit a w)) = score a"
  "correctAnswer (app (commit a w)) = correctAnswer a"
  "streak (app (commit a w)) = streak a"
  "praise (app (commit a w)) = praise a"
  by (simp_all add: app_commit)

text \<open>A timer firing touches the phase and the displayed index only, whatever the queue holds.\<close>

lemma run_callback_keeps [simp]:
  "config (app (run_callback h cb w)) = config (app w)"
  "numbers (app (run_callback h cb w)) = numbers (app w)"
  "userAnswer (app (run_callback h cb w)) = userAnswer (app w)"
  "score (app (run_callback h cb w)) = score (app w)"
  "correctAnswer (app (run_callback h cb w)) = correctAnswer (app w)"
  "streak (app (run_callback h cb w)) = streak (app w)"
  "praise (app (run_callback h cb w)) = praise (app w)"
  by (cases cb; simp add: Let_def)+

lemma run_callback_gameState:
  "gameState (app (run_callback h cb w)) = gameState (app w)
   \<or> gameState (app (run_callback h cb w)) = ANSWERING"
  by (cases cb) (simp_all add: Let_def)

lemma fire_next_keeps [simp]:
  "config (app (fire_next w)) = config (app w)"
  "numbers (app (fire_next w)) = numbers (app w)"
  "userAnswer (app (fire_next w)) = userAnswer (app w)"
  "score (app (fire_next w)) = score (app w)"
  "correctAnswer (app (fire_next w)) = correctAnswer (app w)"
  "streak (app (fire_next w)) = streak (app w)"
  "praise (app (fire_next w)) = praise (app w)"
  by (simp_all add: fire_next_def split: option.splits)

lemma fire_next_gameState:
  "gameState (app (fire_next w)) = gameState (app w) \<or> gameState (app (fire_next w)) = ANSWERING"
proof (cases "next_timer (timers w)")
  case None
  then show ?thesis by (simp add: fire_next_def)
next
  case (Some t)
  with run_callback_gameState [of "handle t" "callback t" "reschedule t (w\<lparr>clock := due t\<rparr>)"]
  show ?thesis by (simp add: fire_next_def)
qed

lemma fire_next_idle: "timers w = [] \<Longrightarrow> fire_next w = w"
  by (simp add: fire_next_def)


subsection \<open>The timer queue\<close>

lemma timers_inv_initial: "timers_inv initial_world"
  by (simp add: timers_inv_def initial_world_def initial_App_def)

lemma timers_inv_quiet:
  "timers_inv w \<Longrightarrow> gameState (app w) \<noteq> FLASHING \<Longrightarrow> timers w = []"
  by (auto simp: timers_inv_def split: list.splits)

lemma timers_inv_plain:
  assumes "timers_inv w" "gameState (app w) \<noteq> FLASHING" "gameState a \<noteq> FLASHING"
  shows "timers_inv (commit a w)"
  using assms timers_inv_quiet [OF assms(1,2)]
  by (simp add: commit_plain timers_inv_def)

lemma timers_inv_Go:
  assumes "timers_inv w"
  shows "timers_inv (dispatch Go w)"
proof (cases "gameState (app w) = READY")
  case True
  with assms have "timers w = []" by (simp add: timers_inv_quiet)
  with True assms show ?thesis
    by (simp add: timers_inv_def commit_def Let_def flashing_effect_def setInterval_def
        is_flash_interval_def)
next
  case False
  with assms show ?thesis by simp
qed

lemma timers_inv_fire:
  assumes "timers_inv w"
  shows "timers_inv (fire_next w)"
proof (cases "timers w")
  case Nil
  with assms show ?thesis by (simp add: fire_next_idle)
next
  case (Cons t ts)
  with assms have ts: "ts = []" and fl: "gameState (app w) = FLASHING"
    and t: "is_flash_interval w t \<or> is_last_delay t" and nh: "0 < next_handle w"
    by (auto simp: timers_inv_def split: list.splits)
  from t show ?thesis
  proof
    assume "is_flash_interval w t"
    then obtain p idx len d where "period t = Some p" "handle t \<noteq> 0"
      "flashTimerRef (app w) = Some (handle t)" "callback t = FlashTick idx len d"
      by (auto simp: is_flash_interval_def split: callback.splits)
    with Cons ts fl nh show ?thesis
      by (simp add: fire_next_def reschedule_def store_idx_def Let_def commit_same
          clear_flash_timer_def clearInterval_def setTimeout_def timers_inv_def
          is_flash_interval_def is_last_delay_def)
  next
    assume "is_last_delay t"
    then have "period t = None" "callback t = ToAnswering" by (simp_all add: is_last_delay_def)
    with Cons ts fl nh show ?thesis
      by (simp add: fire_next_def reschedule_def commit_def Let_def timers_inv_def)
  qed
qed

lemma timers_inv_dispatch: "timers_inv w \<Longrightarrow> timers_inv (dispatch e w)"
proof (cases e)
  case Go
  assume "timers_inv w"
  with Go show ?thesis by (simp only: timers_inv_Go)
next
  case TimerFires
  assume "timers_inv w"
  with TimerFires show ?thesis by (simp add: timers_inv_fire)
next
  case (Elapse d)
  assume "timers_inv w"
  with Elapse show ?thesis
    by (auto simp: timers_inv_def is_flash_interval_def split: list.splits)
qed (simp_all add: timers_inv_plain startGame_fields handleNumClick_def checkAnswer_def Let_def)

lemma reachable_timers_inv: "reachable w \<Longrightarrow> timers_inv w"
  by (induction rule: reachable.induct) (simp_all add: timers_inv_initial timers_inv_dispatch del: dispatch.simps)

subsection \<open>The catalogue\<close>

lemma catalogue_bounds:
  "list_all (\<lambda>cfg. 2 \<le> count cfg \<and> 5 \<le> maxValue cfg \<and> 400 \<le> interval cfg
                   \<and> count cfg * maxValue cfg \<le> 150) DIFFICULTY_LEVELS"
  by (simp add: DIFFICULTY_LEVELS_def)

lemma catalogue_valid:
  assumes "cfg \<in> set DIFFICULTY_LEVELS"
  shows "2 \<le> count cfg" "5 \<le> maxValue cfg" "400 \<le> interval cfg"
    "count cfg * maxValue cfg \<le> 150"
  using assms catalogue_bounds by (auto simp: list_all_iff)

subsection \<open>The answer being typed\<close>

lemma NUM_BUTTONS_cases:
  "val \<in> set NUM_BUTTONS \<Longrightarrow> val = ''C'' \<or> (\<exists>c \<in> set ''0123456789''. val = [c])"
  by (auto simp: NUM_BUTTONS_def)

lemma answer_inv_initial: "answer_inv initial_world"
  by (simp add: answer_inv_def initial_world_def initial_App_def)

lemma answer_inv_Press:
  assumes "answer_inv w"
  shows "answer_inv (dispatch (Press val) w)"
proof (cases "gameState (app w) = ANSWERING \<and> val \<in> set NUM_BUTTONS")
  case True
  then have "val = ''C'' \<or> (\<exists>c \<in> set ''0123456789''. val = [c])"
    using NUM_BUTTONS_cases by blast
  with True assms show ?thesis
    by (auto simp: dispatch_Press answer_inv_def handleNumClick_def)
next
  case False
  with assms show ?thesis by auto
qed

lemma answer_inv_fire:
  assumes "answer_inv w"
  shows "answer_inv (fire_next w)"
  using assms fire_next_gameState [of w] by (auto simp: answer_inv_def)

lemma answer_inv_dispatch: "answer_inv w \<Longrightarrow> answer_inv (dispatch e w)"
proof (cases e)
  case (Press val)
  assume "answer_inv w"
  with Press show ?thesis by (simp only: answer_inv_Press)
next
  case TimerFires
  assume "answer_inv w"
  with TimerFires show ?thesis by (simp add: answer_inv_fire)
qed (auto simp: answer_inv_def startGame_fields checkAnswer_def Let_def)

lemma reachable_answer_inv: "reachable w \<Longrightarrow> answer_inv w"
  by (induction rule: reachable.induct)
     (simp_all add: answer_inv_initial answer_inv_dispatch del: dispatch.simps)

subsection \<open>The preset and the round\<close>

lemma round_inv_initial: "round_inv initial_world"
  by (simp add: round_inv_def initial_world_def initial_App_def DIFFICULTY_LEVELS_def)

lemma startGame_values:
  assumes "1 \<le> maxValue (config a)" and "\<forall>i. 0 \<le> rs i \<and> rs i < 1"
    and "x \<in> set (numbers (startGame rs a))"
  shows "1 \<le> x \<and> x \<le> maxValue (config a)"
proof -
  from assms(3) obtain i where x: "x = random_below (rs i) (maxValue (config a)) + 1"
    by (auto simp: numbers_startGame)
  from assms(2) have "0 \<le> rs i" "rs i < 1" by simp_all
  from random_below_range [OF this assms(1)] x show ?thesis by simp
qed

lemma round_inv_startGame:
  assumes "round_inv w" and "\<forall>i. 0 \<le> rs i \<and> rs i < 1"
  shows "round_inv (w\<lparr>app := startGame rs (app w)\<rparr>)"
proof -
  from assms(1) have cfg: "config (app w) \<in> set DIFFICULTY_LEVELS" by (simp add: round_inv_def)
  then have c: "2 \<le> count (config (app w))" and m: "1 \<le> maxValue (config (app w))"
    using catalogue_valid [of "config (app w)"] by simp_all
  from c have "int (length (numbers (startGame rs (app w)))) = count (config (app w))"
    by (simp add: numbers_startGame)
  with cfg startGame_values [OF m assms(2)] show ?thesis
    by (simp add: round_inv_def startGame_fields correctAnswer_startGame)
qed

lemma round_inv_dispatch:
  assumes "round_inv w" and "timers_inv w" and "draws_ok e"
  shows "round_inv (dispatch e w)"
proof (cases e)
  case (Play rs)
  with assms(3) have rs: "\<forall>i. 0 \<le> rs i \<and> rs i < 1" by simp
  show ?thesis
  proof (cases "gameState (app w) = START")
    case True
    from round_inv_startGame [OF assms(1) rs] show ?thesis
      unfolding Play dispatch_start(1) [OF True] .
  next
    case False
    with assms(1) Play show ?thesis by simp
  qed
next
  case (Again rs)
  with assms(3) have rs: "\<forall>i. 0 \<le> rs i \<and> rs i < 1" by simp
  show ?thesis
  proof (cases "gameState (app w) = RESULT")
    case True
    from round_inv_startGame [OF assms(1) rs] show ?thesis
      unfolding Again dispatch_start(2) [OF True] .
  next
    case False
    with assms(1) Again show ?thesis by simp
  qed
next
  case TimerFires
  show ?thesis
  proof (cases "gameState (app w) = START")
    case True
    with assms(2) have "fire_next w = w" by (simp add: timers_inv_quiet fire_next_idle)
    with assms(1) TimerFires show ?thesis by simp
  next
    case False
    with assms(1) TimerFires show ?thesis by (simp add: round_inv_def)
  qed
next
  case (SelectLevel i)
  with assms(1) show ?thesis by (simp add: round_inv_def)
qed (use assms(1) in \<open>auto simp: round_inv_def checkAnswer_def handleNumClick_def Let_def\<close>)

lemma reachable_round_inv: "reachable w \<Longrightarrow> round_inv w"
  by (induction rule: reachable.induct)
     (simp_all add: round_inv_initial round_inv_dispatch reachable_timers_inv del: dispatch.simps)

section \<open>The claims\<close>

subsection \<open>Round generation\<close>



text \<open>
  C6, as the claim states it, fails: \<open>startGame\<close> has no check and no error result. With
  a preset of no values it stores the empty round and moves to READY, from where GO
  enters FLASHING; with a preset of \<open>maxValue = 0\<close> it stores the round \<open>[1, 1]\<close>.
\<close>

theorem startGame_accepts_invalid_preset:
  "count no_values_config < 1
   \<and> gameState (startGame rs34 (initial_App\<lparr>config := no_values_config\<rparr>)) = READY
   \<and> numbers (startGame rs34 (initial_App\<lparr>config := no_values_config\<rparr>)) = []
   \<and> gameState (app (dispatch Go
        (initial_world\<lparr>app := startGame rs34 (initial_App\<lparr>config := no_values_config\<rparr>)\<rparr>)))
       = FLASHING
   \<and> maxValue no_range_config < 1
   \<and> gameState (startGame rs34 (initial_App\<lparr>config := no_range_config\<rparr>)) = READY
   \<and> numbers (startGame rs34 (initial_App\<lparr>config := no_range_config\<rparr>)) = [1, 1]"
  by (simp add: no_values_config_def no_range_config_def DIFFICULTY_LEVELS_def startGame_fields
      numbers_startGame random_below_def upt_rec)

text \<open>
  C6, amended. Round generation checks nothing and cannot fail: for any preset
  \<open>startGame\<close> stores \<open>max 0 count\<close> values and moves to READY. A preset with
  \<open>count < 1\<close> or \<open>maxValue < 1\<close> never reaches it, because in every reachable state the
  active preset is one of the catalogue, where \<open>count \<ge> 1\<close> and \<open>maxValue \<ge> 1\<close>.
\<close>

theorem startGame_total_on_catalogue:
  "gameState (startGame rs a) = READY
   \<and> length (numbers (startGame rs a)) = nat (count (config a))
   \<and> (reachable w \<longrightarrow> config (app w) \<in> set DIFFICULTY_LEVELS
         \<and> 1 \<le> count (config (app w)) \<and> 1 \<le> maxValue (config (app w)))"
proof (intro conjI impI)
  assume "reachable w"
  then have "round_inv w" by (rule reachable_round_inv)
  then show c: "config (app w) \<in> set DIFFICULTY_LEVELS" by (simp add: round_inv_def)
  from catalogue_valid [OF c]
  show "1 \<le> count (config (app w))" "1 \<le> maxValue (config (app w))" by simp_all
qed (simp_all add: startGame_fields numbers_startGame)

theorem startGame_total_on_catalogue_witness:
  "gameState (startGame rs34 initial_App) = READY
   \<and> length (numbers (startGame rs34 initial_App)) = nat (count (config initial_App))
   \<and> reachable demo_ready \<and> config (app demo_ready) \<in> set DIFFICULTY_LEVELS
   \<and> 1 \<le> count (config (app demo_ready)) \<and> 1 \<le> maxValue (config (app demo_ready))"
  using startGame_total_on_catalogue [of rs34 initial_App demo_ready] reachable_demo_ready
  by simp

subsection \<open>Typing and submitting an answer\<close>

lemma parseInt_Nil: "parseInt [] = None"
  by (simp add: parseInt_def)

lemma CONSOLATION_not_praise: "CONSOLATION \<notin> set PRAISE_MESSAGES"
  by (simp add: CONSOLATION_def PRAISE_MESSAGES_def)

lemma praise_drawn:
  assumes "0 \<le> r" "r < 1"
  shows "js_index PRAISE_MESSAGES (random_below r (int (length PRAISE_MESSAGES)))
           \<in> Some ` set PRAISE_MESSAGES"
proof -
  have "1 \<le> int (length PRAISE_MESSAGES)" by (simp add: PRAISE_MESSAGES_def)
  from random_below_range [OF assms this]
  have "0 \<le> random_below r (int (length PRAISE_MESSAGES))"
    and "nat (random_below r (int (length PRAISE_MESSAGES))) < length PRAISE_MESSAGES"
    by linarith+
  then show ?thesis by (simp add: js_index_def)
qed

text \<open>
  C2. A submit in ANSWERING whose parsed input equals the round's sum adds
  \<open>count * 10 + streak * 5\<close> to the score, with the streak as it was before the submit,
  then adds 1 to the streak, and shows a message of the praise set, which is not empty.
  With \<open>count = 3\<close> and \<open>streak = 2\<close> the score grows by 40.
\<close>

theorem checkAnswer_correct:
  assumes "gameState (app w) = ANSWERING"
    and "parseInt (userAnswer (app w)) = Some (correctAnswer (app w))"
    and "0 \<le> r" and "r < 1"
  shows "score (app (dispatch (Ok r) w))
           = score (app w) + (count (config (app w)) * 10 + streak (app w) * 5)
       \<and> streak (app (dispatch (Ok r) w)) = streak (app w) + 1
       \<and> praise (app (dispatch (Ok r) w)) \<in> Some ` set PRAISE_MESSAGES
       \<and> PRAISE_MESSAGES \<noteq> []
       \<and> gameState (app (dispatch (Ok r) w)) = RESULT
       \<and> (count (config (app w)) = 3 \<and> streak (app w) = 2
            \<longrightarrow> score (app (dispatch (Ok r) w)) = score (app w) + 40)"
proof -
  from assms(2) have "userAnswer (app w) \<noteq> []" by (auto simp: parseInt_Nil)
  from dispatch_Ok [OF assms(1) this]
  have "dispatch (Ok r) w = w\<lparr>app := checkAnswer r (app w)\<rparr>" .
  moreover have "PRAISE_MESSAGES \<noteq> []" by (simp add: PRAISE_MESSAGES_def)
  ultimately show ?thesis
    using assms(2) praise_drawn [OF assms(3,4)] by (simp add: checkAnswer_def Let_def)
qed

theorem checkAnswer_correct_witness:
  "gameState (app (demo_streak ''6'')) = ANSWERING
   \<and> parseInt (userAnswer (app (demo_streak ''6''))) = Some (correctAnswer (app (demo_streak ''6'')))
   \<and> (0::rat) \<le> 1 / 2 \<and> (1 / 2 :: rat) < 1
   \<and> count (config (app (demo_streak ''6''))) = 3 \<and> streak (app (demo_streak ''6'')) = 2
   \<and> score (app (demo_streak ''6'')) = 50
   \<and> score (app (dispatch (Ok (1 / 2)) (demo_streak ''6''))) = 90
   \<and> streak (app (dispatch (Ok (1 / 2)) (demo_streak ''6''))) = 3
   \<and> praise (app (dispatch (Ok (1 / 2)) (demo_streak ''6''))) \<in> Some ` set PRAISE_MESSAGES
   \<and> gameState (app (dispatch (Ok (1 / 2)) (demo_streak ''6''))) = RESULT"
proof -
  have h1: "gameState (app (demo_streak ''6'')) = ANSWERING"
    by (simp add: demo_streak_def)
  have h2: "parseInt (userAnswer (app (demo_streak ''6'')))
              = Some (correctAnswer (app (demo_streak ''6'')))"
    by (simp add: demo_streak_def parseInt_def is_white_def is_digit_of_def digit_value_def
        digits_value_def)
  have h3: "(0::rat) \<le> 1 / 2" and h4: "(1 / 2 :: rat) < 1" by simp_all
  have c: "count (config (app (demo_streak ''6''))) = 3" "streak (app (demo_streak ''6'')) = 2"
    "score (app (demo_streak ''6'')) = 50"
    by (simp_all add: demo_streak_def DIFFICULTY_LEVELS_def)
  from checkAnswer_correct [OF h1 h2 h3 h4] h1 h2 c show ?thesis by simp
qed

text \<open>
  C4. A submit in ANSWERING whose parsed input differs from the round's sum sets the
  streak to 0, leaves the score as it is, and shows the one fixed message of line 142,
  which is not a member of the praise set.
\<close>

theorem checkAnswer_wrong:
  assumes "gameState (app w) = ANSWERING" and "userAnswer (app w) \<noteq> []"
    and "parseInt (userAnswer (app w)) \<noteq> Some (correctAnswer (app w))"
  shows "streak (app (dispatch (Ok r) w)) = 0
       \<and> score (app (dispatch (Ok r) w)) = score (app w)
       \<and> praise (app (dispatch (Ok r) w)) = Some CONSOLATION
       \<and> CONSOLATION \<notin> set PRAISE_MESSAGES
       \<and> gameState (app (dispatch (Ok r) w)) = RESULT"
  unfolding dispatch_Ok [OF assms(1,2)]
  using assms(3) CONSOLATION_not_praise by (simp add: checkAnswer_def Let_def)

theorem checkAnswer_wrong_witness:
  "gameState (app (demo_streak ''5'')) = ANSWERING \<and> userAnswer (app (demo_streak ''5'')) \<noteq> []
   \<and> parseInt (userAnswer (app (demo_streak ''5''))) \<noteq> Some (correctAnswer (app (demo_streak ''5'')))
   \<and> streak (app (demo_streak ''5'')) = 2
   \<and> streak (app (dispatch (Ok (1 / 2)) (demo_streak ''5''))) = 0
   \<and> score (app (dispatch (Ok (1 / 2)) (demo_streak ''5''))) = score (app (demo_streak ''5''))
   \<and> praise (app (dispatch (Ok (1 / 2)) (demo_streak ''5''))) = Some CONSOLATION
   \<and> CONSOLATION \<notin> set PRAISE_MESSAGES
   \<and> gameState (app (dispatch (Ok (1 / 2)) (demo_streak ''5''))) = RESULT"
proof -
  have h1: "gameState (app (demo_streak ''5'')) = ANSWERING"
    and h2: "userAnswer (app (demo_streak ''5'')) \<noteq> []"
    and s: "streak (app (demo_streak ''5'')) = 2"
    by (simp_all add: demo_streak_def)
  have h3: "parseInt (userAnswer (app (demo_streak ''5'')))
              \<noteq> Some (correctAnswer (app (demo_streak ''5'')))"
    by (simp add: demo_streak_def parseInt_def is_white_def is_digit_of_def digit_value_def
        digits_value_def)
  from checkAnswer_wrong [OF h1 h2 h3, of "1 / 2"] h1 h2 h3 s show ?thesis by blast
qed

text \<open>
  C7. A click on OK in ANSWERING while nothing is typed changes nothing at all: the button
  is disabled, \<open>checkAnswer\<close> does not run, and the whole state stays as it was. As a
  consequence no result screen is ever reached with an empty answer.
\<close>

theorem empty_submit_ignored:
  "(gameState (app w) = ANSWERING \<and> userAnswer (app w) = [] \<longrightarrow> dispatch (Ok r) w = w)
   \<and> (reachable v \<and> gameState (app v) = RESULT \<longrightarrow> userAnswer (app v) \<noteq> [])"
proof (intro conjI impI)
  assume "reachable v \<and> gameState (app v) = RESULT"
  then have "answer_inv v" "gameState (app v) = RESULT" by (simp_all add: reachable_answer_inv)
  then show "userAnswer (app v) \<noteq> []" by (simp add: answer_inv_def)
qed simp

theorem empty_submit_ignored_witness:
  "gameState (app demo_answering) = ANSWERING \<and> userAnswer (app demo_answering) = []
   \<and> dispatch (Ok (1 / 2)) demo_answering = demo_answering
   \<and> reachable demo_wrong \<and> gameState (app demo_wrong) = RESULT
   \<and> userAnswer (app demo_wrong) \<noteq> []"
proof -
  have a: "gameState (app demo_answering) = ANSWERING \<and> userAnswer (app demo_answering) = []"
    by (simp add: demo_answering_eq)
  have "gameState (app demo_wrong) = RESULT" by (simp add: demo_wrong_eq)
  with reachable_demo_wrong
  have b: "reachable demo_wrong \<and> gameState (app demo_wrong) = RESULT" by (rule conjI)
  from empty_submit_ignored [of demo_answering "1 / 2" demo_wrong] a b show ?thesis by blast
qed

text \<open>
  C9. In every reachable state the answer being typed is a string of at most three
  decimal digits. In ANSWERING a digit key appends its digit exactly when fewer than three
  characters are typed and otherwise changes nothing, and the key \<open>C\<close> empties the answer.
\<close>

theorem pending_input_bounded:
  assumes "reachable w"
  shows "length (userAnswer (app w)) \<le> 3
       \<and> set (userAnswer (app w)) \<subseteq> set ''0123456789''
       \<and> (\<forall>d \<in> set ''0123456789''. gameState (app w) = ANSWERING \<longrightarrow>
             dispatch (Press [d]) w =
               (if length (userAnswer (app w)) < 3
                then w\<lparr>app := (app w)\<lparr>userAnswer := userAnswer (app w) @ [d]\<rparr>\<rparr>
                else w))
       \<and> (gameState (app w) = ANSWERING \<longrightarrow>
             dispatch (Press ''C'') w = w\<lparr>app := (app w)\<lparr>userAnswer := []\<rparr>\<rparr>)"
proof (intro conjI ballI impI)
  from assms have "answer_inv w" by (rule reachable_answer_inv)
  then show "length (userAnswer (app w)) \<le> 3" "set (userAnswer (app w)) \<subseteq> set ''0123456789''"
    by (simp_all add: answer_inv_def)
next
  fix d assume d: "d \<in> set ''0123456789''" and a: "gameState (app w) = ANSWERING"
  from d have "[d] \<in> set NUM_BUTTONS" "[d] \<noteq> ''C''" by (auto simp: NUM_BUTTONS_def)
  with a show "dispatch (Press [d]) w =
      (if length (userAnswer (app w)) < 3
       then w\<lparr>app := (app w)\<lparr>userAnswer := userAnswer (app w) @ [d]\<rparr>\<rparr> else w)"
    by (simp add: dispatch_Press handleNumClick_def del: dispatch.simps)
next
  assume a: "gameState (app w) = ANSWERING"
  have "''C'' \<in> set NUM_BUTTONS" by (simp add: NUM_BUTTONS_def)
  with a show "dispatch (Press ''C'') w = w\<lparr>app := (app w)\<lparr>userAnswer := []\<rparr>\<rparr>"
    by (simp add: dispatch_Press handleNumClick_def del: dispatch.simps)
qed

theorem pending_input_bounded_witness:
  "reachable demo_typed \<and> gameState (app demo_typed) = ANSWERING
   \<and> userAnswer (app demo_typed) = ''6''
   \<and> CHR ''7'' \<in> set ''0123456789''
   \<and> length (userAnswer (app demo_typed)) \<le> 3
   \<and> set (userAnswer (app demo_typed)) \<subseteq> set ''0123456789''
   \<and> userAnswer (app (dispatch (Press ''7'') demo_typed)) = ''67''
   \<and> userAnswer (app (dispatch (Press ''C'') demo_typed)) = []"
proof -
  have a: "gameState (app demo_typed) = ANSWERING" "userAnswer (app demo_typed) = ''6''"
    by (simp_all add: demo_typed_eq)
  have d: "CHR ''7'' \<in> set ''0123456789''" by simp
  from pending_input_bounded [OF reachable_demo_typed] a d reachable_demo_typed
  show ?thesis by (simp del: dispatch.simps)
qed

subsection \<open>Leaving the result screen\<close>




subsection \<open>The flash sequence\<close>

lemma Go_flashing_at:
  assumes "gameState (app w) = READY" "timers w = []" "0 < interval (config (app w))"
  shows "dispatch Go w = flashing_at w 0"
  using assms
  by (simp add: commit_def Let_def flashing_effect_def setInterval_def flashing_at_def)

lemma fire_flashing_at:
  assumes "0 < interval (config (app w))" "Suc k < length (numbers (app w))"
  shows "fire_next (flashing_at w k) = flashing_at w (Suc k)"
  using assms
  by (simp add: flashing_at_def fire_next_def reschedule_def store_idx_def Let_def commit_same
      algebra_simps)

lemma fire_last_flash:
  assumes "0 < interval (config (app w))" "0 < next_handle w" "length (numbers (app w)) = Suc k"
  shows "fire_next (flashing_at w k) = last_delay_at w"
  using assms
  by (simp add: flashing_at_def last_delay_at_def fire_next_def reschedule_def store_idx_def
      Let_def clear_flash_timer_def clearInterval_def setTimeout_def algebra_simps)

lemma fire_last_delay:
  assumes "0 < next_handle w"
  shows "fire_next (last_delay_at w) = answering_after w"
  using assms
  by (simp add: last_delay_at_def answering_after_def fire_next_def reschedule_def
      commit_def Let_def clear_flash_timer_def clearInterval_def)

lemma ticks_flashing_at:
  assumes "0 < interval (config (app w))" "k < length (numbers (app w))"
  shows "ticks k (flashing_at w 0) = flashing_at w k"
  using assms(2)
proof (induction k)
  case 0
  show ?case by simp
next
  case (Suc k)
  then have "ticks k (flashing_at w 0) = flashing_at w k" by simp
  with fire_flashing_at [OF assms(1) Suc.prems] show ?case by simp
qed


text \<open>
  C1. From READY with a round of \<open>N \<ge> 1\<close> values, GO and the timer firings that follow
  display the indices \<open>0, 1, ..., N - 1\<close> in this order, the index \<open>k\<close> from time
  \<open>k * interval\<close> on, with the repeating timer pending throughout. The next firing, at
  \<open>N * interval\<close>, leaves the last index on display, cancels the repeating timer and
  schedules one timeout \<open>interval\<close> later; when that fires, at \<open>(N + 1) * interval\<close>, the
  phase is ANSWERING, the index is \<open>- 1\<close> and no timer is pending.
\<close>

theorem flash_sequence:
  assumes "gameState (app w) = READY" and "timers w = []" and "numbers (app w) \<noteq> []"
    and "0 < interval (config (app w))" and "0 < next_handle w"
  shows "map (\<lambda>k. (gameState (app (ticks k (dispatch Go w))),
                  currentIndex (app (ticks k (dispatch Go w))),
                  clock (ticks k (dispatch Go w)),
                  map period (timers (ticks k (dispatch Go w)))))
             [0..<length (numbers (app w))]
         = map (\<lambda>k. (FLASHING, int k, clock w + int k * interval (config (app w)),
                       [Some (interval (config (app w)))]))
               [0..<length (numbers (app w))]
       \<and> gameState (app (ticks (length (numbers (app w))) (dispatch Go w))) = FLASHING
       \<and> currentIndex (app (ticks (length (numbers (app w))) (dispatch Go w)))
           = int (length (numbers (app w))) - 1
       \<and> clock (ticks (length (numbers (app w))) (dispatch Go w))
           = clock w + int (length (numbers (app w))) * interval (config (app w))
       \<and> map (\<lambda>t. (due t, period t, callback t))
             (timers (ticks (length (numbers (app w))) (dispatch Go w)))
           = [(clock w + (int (length (numbers (app w))) + 1) * interval (config (app w)),
               None, ToAnswering)]
       \<and> gameState (app (ticks (Suc (length (numbers (app w)))) (dispatch Go w))) = ANSWERING
       \<and> currentIndex (app (ticks (Suc (length (numbers (app w)))) (dispatch Go w))) = - 1
       \<and> clock (ticks (Suc (length (numbers (app w)))) (dispatch Go w))
           = clock w + (int (length (numbers (app w))) + 1) * interval (config (app w))
       \<and> timers (ticks (Suc (length (numbers (app w)))) (dispatch Go w)) = []"
proof -
  from assms(3) obtain n where n: "length (numbers (app w)) = Suc n"
    by (cases "numbers (app w)") simp_all
  have go: "dispatch Go w = flashing_at w 0"
    by (rule Go_flashing_at [OF assms(1,2,4)])
  have flashes: "ticks k (dispatch Go w) = flashing_at w k" if "k < length (numbers (app w))" for k
    unfolding go by (rule ticks_flashing_at [OF assms(4) that])
  have "ticks n (dispatch Go w) = flashing_at w n" using flashes [of n] n by simp
  then have last: "ticks (length (numbers (app w))) (dispatch Go w) = last_delay_at w"
    using fire_last_flash [OF assms(4,5) n] n by simp
  then have fin: "ticks (Suc (length (numbers (app w)))) (dispatch Go w) = answering_after w"
    using fire_last_delay [OF assms(5)] by simp
  have "map (\<lambda>k. (gameState (app (ticks k (dispatch Go w))),
                  currentIndex (app (ticks k (dispatch Go w))),
                  clock (ticks k (dispatch Go w)),
                  map period (timers (ticks k (dispatch Go w)))))
             [0..<length (numbers (app w))]
         = map (\<lambda>k. (FLASHING, int k, clock w + int k * interval (config (app w)),
                       [Some (interval (config (app w)))]))
               [0..<length (numbers (app w))]"
    by (rule map_cong [OF refl]) (simp add: flashes flashing_at_def del: dispatch.simps)
  then show ?thesis
    unfolding last fin by (simp add: last_delay_at_def answering_after_def)
qed

theorem flash_sequence_witness:
  "gameState (app demo_ready) = READY \<and> timers demo_ready = []
   \<and> numbers (app demo_ready) = [3, 4]
   \<and> interval (config (app demo_ready)) = 1200 \<and> clock demo_ready = 0
   \<and> next_handle demo_ready = 1
   \<and> map (\<lambda>k. (gameState (app (ticks k (dispatch Go demo_ready))),
                currentIndex (app (ticks k (dispatch Go demo_ready))),
                clock (ticks k (dispatch Go demo_ready)),
                map period (timers (ticks k (dispatch Go demo_ready))))) [0, 1]
       = [(FLASHING, 0, 0, [Some 1200]), (FLASHING, 1, 1200, [Some 1200])]
   \<and> gameState (app (ticks 2 (dispatch Go demo_ready))) = FLASHING
   \<and> currentIndex (app (ticks 2 (dispatch Go demo_ready))) = 1
   \<and> clock (ticks 2 (dispatch Go demo_ready)) = 2400
   \<and> map (\<lambda>t. (due t, period t, callback t)) (timers (ticks 2 (dispatch Go demo_ready)))
       = [(3600, None, ToAnswering)]
   \<and> gameState (app (ticks 3 (dispatch Go demo_ready))) = ANSWERING
   \<and> currentIndex (app (ticks 3 (dispatch Go demo_ready))) = - 1
   \<and> clock (ticks 3 (dispatch Go demo_ready)) = 3600
   \<and> timers (ticks 3 (dispatch Go demo_ready)) = []"
proof -
  have h: "gameState (app demo_ready) = READY" "timers demo_ready = []"
    "numbers (app demo_ready) \<noteq> []" "0 < interval (config (app demo_ready))"
    "0 < next_handle demo_ready"
    by (simp_all add: demo_ready_eq initial_App_def DIFFICULTY_LEVELS_def)
  have v: "numbers (app demo_ready) = [3, 4]" "interval (config (app demo_ready)) = 1200"
    "clock demo_ready = 0" "next_handle demo_ready = 1"
    by (simp_all add: demo_ready_eq initial_App_def DIFFICULTY_LEVELS_def)
  have n: "length (numbers (app demo_ready)) = 2" "Suc (length (numbers (app demo_ready))) = 3"
    by (simp_all add: v)
  have u: "[0..<2] = [0, 1::nat]" by (simp add: upt_rec)
  from flash_sequence [OF h] h(1,2) v show ?thesis
    unfolding n by (simp add: u del: ticks.simps dispatch.simps)
qed

subsection \<open>Starting a round and the timers of the previous one\<close>




subsection \<open>Typing the sum\<close>

lemma digit_char_digit:
  assumes "d < 10"
  shows "digit_char d \<in> set ''0123456789''" and "digit_value (digit_char d) = Some d"
proof -
  from assms have "d \<in> {0, 1, 2, 3, 4, 5, 6, 7, 8, 9}" by auto
  then show "digit_char d \<in> set ''0123456789''" and "digit_value (digit_char d) = Some d"
    by (auto simp: digit_char_def digit_value_def)
qed

lemma digit_value_digit:
  "c \<in> set ''0123456789'' \<Longrightarrow> \<exists>d < 10. digit_value c = Some d"
  by (auto simp: digit_value_def)

lemma digits_of_digits: "set (digits_of n) \<subseteq> set ''0123456789''"
proof (induction n rule: digits_of.induct)
  case (1 n)
  show ?case
  proof (cases "n < 10")
    case True
    with digit_char_digit(1) [of n] show ?thesis by (subst digits_of.simps) simp
  next
    case False
    have "n mod 10 < 10" by simp
    from digit_char_digit(1) [OF this] 1 [OF False] False show ?thesis
      by (subst digits_of.simps) simp
  qed
qed

lemma digits_of_not_Nil: "digits_of n \<noteq> []"
  by (subst digits_of.simps) simp

lemma length_digits_of: "n < 1000 \<Longrightarrow> length (digits_of n) \<le> 3"
  by (simp add: digits_of.simps [of n] digits_of.simps [of "n div 10"]
      digits_of.simps [of "n div 10 div 10"])

lemma digits_value_snoc:
  "digits_value radix (ds @ [c]) = digits_value radix ds * radix + the (digit_value c)"
  by (simp add: digits_value_def)

lemma digits_value_digits_of: "digits_value 10 (digits_of n) = n"
proof (induction n rule: digits_of.induct)
  case (1 n)
  show ?case
  proof (cases "n < 10")
    case True
    with digit_char_digit(2) [of n] show ?thesis
      by (subst digits_of.simps) (simp add: digits_value_def)
  next
    case False
    have "n mod 10 < 10" by simp
    from digit_char_digit(2) [OF this] 1 [OF False] False show ?thesis
      by (subst digits_of.simps) (simp add: digits_value_snoc)
  qed
qed

lemma parseInt_digits:
  assumes "ds \<noteq> []" and "set ds \<subseteq> set ''0123456789''"
  shows "parseInt ds = Some (int (digits_value 10 ds))"
proof -
  from assms obtain c cs where ds: "ds = c # cs" by (cases ds) auto
  have dig: "is_digit_of 10 x" if "x \<in> set ds" for x
  proof -
    from that assms(2) have "x \<in> set ''0123456789''" by blast
    from digit_value_digit [OF this] show ?thesis by (auto simp: is_digit_of_def)
  qed
  then have all: "takeWhile (is_digit_of 10) ds = ds" by (simp add: takeWhile_eq_all_conv)
  from assms(2) ds have c: "\<not> is_white c" "c \<noteq> CHR ''-''" "c \<noteq> CHR ''+''"
    by (auto simp: is_white_def)
  have nohex: "take 2 ds \<noteq> ''0x''" "take 2 ds \<noteq> ''0X''"
    using assms(2) ds by (cases cs; auto)+
  from c ds have s1: "dropWhile is_white ds = ds" "take 1 ds \<noteq> ''-''" "take 1 ds \<noteq> ''+''"
    by simp_all
  show ?thesis
    unfolding parseInt_def Let_def s1 using nohex assms(1) s1(2,3) by (simp add: all)
qed

lemma parseInt_digits_of: "parseInt (digits_of n) = Some (int n)"
  using parseInt_digits [OF digits_of_not_Nil digits_of_digits, of n]
  by (simp add: digits_value_digits_of)

lemma run_presses:
  assumes "gameState (app w) = ANSWERING" and "set ds \<subseteq> set ''0123456789''"
    and "length (userAnswer (app w)) + length ds \<le> 3"
  shows "run (presses ds) w = w\<lparr>app := (app w)\<lparr>userAnswer := userAnswer (app w) @ ds\<rparr>\<rparr>"
  using assms
proof (induction ds arbitrary: w)
  case Nil
  show ?case by (simp add: run_def presses_def)
next
  case (Cons d ds)
  from Cons.prems(2) have "[d] \<in> set NUM_BUTTONS" "[d] \<noteq> ''C''"
    by (auto simp: NUM_BUTTONS_def)
  with Cons.prems(1,3)
  have step: "dispatch (Press [d]) w = w\<lparr>app := (app w)\<lparr>userAnswer := userAnswer (app w) @ [d]\<rparr>\<rparr>"
    by (simp add: dispatch_Press handleNumClick_def del: dispatch.simps)
  have "run (presses (d # ds)) w = run (presses ds) (dispatch (Press [d]) w)"
    by (simp add: run_def presses_def del: dispatch.simps)
  also have "\<dots> = w\<lparr>app := (app w)\<lparr>userAnswer := userAnswer (app w) @ d # ds\<rparr>\<rparr>"
    unfolding step using Cons.prems by (subst Cons.IH) simp_all
  finally show ?case .
qed

lemma sum_list_bounded:
  "\<forall>x \<in> set xs. (1::int) \<le> x \<and> x \<le> m \<Longrightarrow>
     int (length xs) \<le> sum_list xs \<and> sum_list xs \<le> int (length xs) * m"
  by (induction xs) (auto simp: algebra_simps)

lemma round_inv_sum:
  assumes "round_inv w" and "gameState (app w) \<noteq> START"
  shows "2 \<le> correctAnswer (app w)" and "correctAnswer (app w) \<le> 150"
proof -
  from assms have cfg: "config (app w) \<in> set DIFFICULTY_LEVELS"
    and len: "int (length (numbers (app w))) = count (config (app w))"
    and rng: "\<forall>x \<in> set (numbers (app w)). 1 \<le> x \<and> x \<le> maxValue (config (app w))"
    and sm: "correctAnswer (app w) = sum_list (numbers (app w))"
    by (simp_all add: round_inv_def)
  from sum_list_bounded [OF rng] len sm
  have "count (config (app w)) \<le> correctAnswer (app w)"
    and "correctAnswer (app w) \<le> count (config (app w)) * maxValue (config (app w))"
    by simp_all
  with catalogue_valid(1,4) [OF cfg]
  show "2 \<le> correctAnswer (app w)" and "correctAnswer (app w) \<le> 150" by linarith+
qed

lemma run_Cons: "run (e # es) w = run es (dispatch e w)"
  by (simp add: run_def del: dispatch.simps)

lemma run_snoc: "run (es @ [e]) w = dispatch e (run es w)"
  by (simp add: run_def del: dispatch.simps)

lemma submit_typed_sum:
  assumes "round_inv w" and "gameState (app w) = ANSWERING"
  shows "userAnswer (app (run (Press ''C'' # presses (digits_of (nat (correctAnswer (app w))))) w))
           = digits_of (nat (correctAnswer (app w)))"
    and "run ((Press ''C'' # presses (digits_of (nat (correctAnswer (app w))))) @ [Ok r]) w
           = w\<lparr>app := checkAnswer r
                 ((app w)\<lparr>userAnswer := digits_of (nat (correctAnswer (app w)))\<rparr>)\<rparr>"
proof -
  let ?ds = "digits_of (nat (correctAnswer (app w)))"
  let ?w1 = "w\<lparr>app := (app w)\<lparr>userAnswer := []\<rparr>\<rparr>"
  let ?w2 = "w\<lparr>app := (app w)\<lparr>userAnswer := ?ds\<rparr>\<rparr>"
  from assms have "correctAnswer (app w) \<le> 150" by (simp add: round_inv_sum)
  then have len: "length ?ds \<le> 3" by (simp add: length_digits_of)
  have "''C'' \<in> set NUM_BUTTONS" by (simp add: NUM_BUTTONS_def)
  with assms(2) have c: "dispatch (Press ''C'') w = ?w1"
    by (simp add: dispatch_Press handleNumClick_def del: dispatch.simps)
  have "run (presses ?ds) ?w1 = ?w1\<lparr>app := (app ?w1)\<lparr>userAnswer := userAnswer (app ?w1) @ ?ds\<rparr>\<rparr>"
    by (rule run_presses) (use assms(2) len digits_of_digits in simp_all)
  then have typed: "run (Press ''C'' # presses ?ds) w = ?w2"
    unfolding run_Cons c by simp
  then show "userAnswer (app (run (Press ''C'' # presses ?ds) w)) = ?ds" by simp
  from assms(2) digits_of_not_Nil [of "nat (correctAnswer (app w))"]
  have "dispatch (Ok r) ?w2 = ?w2\<lparr>app := checkAnswer r (app ?w2)\<rparr>"
    by (intro dispatch_Ok) simp_all
  then show "run ((Press ''C'' # presses ?ds) @ [Ok r]) w
               = w\<lparr>app := checkAnswer r ((app w)\<lparr>userAnswer := ?ds\<rparr>)\<rparr>"
    unfolding run_snoc typed by simp
qed

text \<open>
  C10. For every preset of the catalogue \<open>count * maxValue\<close> is at most 150 (reached by
  the last preset, 10 values up to 15), hence below 999. So in every reachable answering
  screen the sum to be typed is at most 999, its decimal digits are at most three, and
  typing them after \<open>C\<close> and clicking OK is accepted as the correct answer.
\<close>

theorem catalogue_sum_can_be_entered:
  "list_all (\<lambda>cfg. count cfg * maxValue cfg \<le> 150 \<and> count cfg * maxValue cfg \<le> 999)
     DIFFICULTY_LEVELS
   \<and> count (last DIFFICULTY_LEVELS) * maxValue (last DIFFICULTY_LEVELS) = 150
   \<and> (reachable w \<and> gameState (app w) = ANSWERING \<longrightarrow>
        0 \<le> correctAnswer (app w) \<and> correctAnswer (app w) \<le> 999
        \<and> length (digits_of (nat (correctAnswer (app w)))) \<le> 3
        \<and> parseInt (digits_of (nat (correctAnswer (app w)))) = Some (correctAnswer (app w))
        \<and> userAnswer (app (run (Press ''C'' # presses (digits_of (nat (correctAnswer (app w))))) w))
            = digits_of (nat (correctAnswer (app w)))
        \<and> gameState (app (run ((Press ''C'' # presses (digits_of (nat (correctAnswer (app w)))))
                                   @ [Ok r]) w)) = RESULT
        \<and> streak (app (run ((Press ''C'' # presses (digits_of (nat (correctAnswer (app w)))))
                                @ [Ok r]) w)) = streak (app w) + 1)"
proof (intro conjI impI)
  show "list_all (\<lambda>cfg. count cfg * maxValue cfg \<le> 150 \<and> count cfg * maxValue cfg \<le> 999)
          DIFFICULTY_LEVELS"
    by (simp add: DIFFICULTY_LEVELS_def)
  show "count (last DIFFICULTY_LEVELS) * maxValue (last DIFFICULTY_LEVELS) = 150"
    by (simp add: DIFFICULTY_LEVELS_def)
next
  assume w: "reachable w \<and> gameState (app w) = ANSWERING"
  then have r: "round_inv w" and a: "gameState (app w) = ANSWERING"
    by (simp_all add: reachable_round_inv)
  from round_inv_sum [OF r] a
  have lo: "2 \<le> correctAnswer (app w)" and hi: "correctAnswer (app w) \<le> 150" by simp_all
  then show "0 \<le> correctAnswer (app w)" "correctAnswer (app w) \<le> 999" by simp_all
  from hi show "length (digits_of (nat (correctAnswer (app w)))) \<le> 3"
    by (simp add: length_digits_of)
  from lo show p: "parseInt (digits_of (nat (correctAnswer (app w)))) = Some (correctAnswer (app w))"
    by (simp add: parseInt_digits_of)
  show "userAnswer (app (run (Press ''C'' # presses (digits_of (nat (correctAnswer (app w))))) w))
          = digits_of (nat (correctAnswer (app w)))"
    by (rule submit_typed_sum(1) [OF r a])
  show "gameState (app (run ((Press ''C'' # presses (digits_of (nat (correctAnswer (app w)))))
                               @ [Ok r]) w)) = RESULT"
    unfolding submit_typed_sum(2) [OF r a] by (simp add: checkAnswer_def Let_def)
  show "streak (app (run ((Press ''C'' # presses (digits_of (nat (correctAnswer (app w)))))
                            @ [Ok r]) w)) = streak (app w) + 1"
    unfolding submit_typed_sum(2) [OF r a] using p by (simp add: checkAnswer_def Let_def)
qed

theorem catalogue_sum_can_be_entered_witness:
  "reachable demo_answering \<and> gameState (app demo_answering) = ANSWERING
   \<and> correctAnswer (app demo_answering) = 7
   \<and> digits_of (nat (correctAnswer (app demo_answering))) = ''7''
   \<and> parseInt ''7'' = Some 7
   \<and> userAnswer (app (run [Press ''C'', Press ''7''] demo_answering)) = ''7''
   \<and> gameState (app (run [Press ''C'', Press ''7'', Ok (1 / 2)] demo_answering)) = RESULT
   \<and> streak (app (run [Press ''C'', Press ''7'', Ok (1 / 2)] demo_answering))
       = streak (app demo_answering) + 1"
proof -
  have a: "gameState (app demo_answering) = ANSWERING" "correctAnswer (app demo_answering) = 7"
    by (simp_all add: demo_answering_eq)
  have d7: "digits_of 7 = ''7''" by (simp add: digits_of.simps [of 7] digit_char_def)
  have d: "digits_of (nat (correctAnswer (app demo_answering))) = ''7''"
    unfolding a by (simp add: d7)
  from catalogue_sum_can_be_entered [of demo_answering "1 / 2"] reachable_demo_answering a
  have "parseInt (digits_of (nat (correctAnswer (app demo_answering)))) = Some (correctAnswer (app demo_answering))
        \<and> userAnswer (app (run (Press ''C'' # presses (digits_of (nat (correctAnswer (app demo_answering))))) demo_answering))
            = digits_of (nat (correctAnswer (app demo_answering)))
        \<and> gameState (app (run ((Press ''C'' # presses (digits_of (nat (correctAnswer (app demo_answering)))))
                                   @ [Ok (1 / 2)]) demo_answering)) = RESULT
        \<and> streak (app (run ((Press ''C'' # presses (digits_of (nat (correctAnswer (app demo_answering)))))
                                @ [Ok (1 / 2)]) demo_answering)) = streak (app demo_answering) + 1"
    by blast
  then have "parseInt ''7'' = Some 7
   \<and> userAnswer (app (run [Press ''C'', Press ''7''] demo_answering)) = ''7''
   \<and> gameState (app (run [Press ''C'', Press ''7'', Ok (1 / 2)] demo_answering)) = RESULT
   \<and> streak (app (run [Press ''C'', Press ''7'', Ok (1 / 2)] demo_answering))
       = streak (app demo_answering) + 1"
    unfolding a(2) by (simp add: presses_def d7 del: dispatch.simps)
  with reachable_demo_answering a d show ?thesis by blast
qed

end
